theory Spec2Isabelle
  imports Main "HOL-Library.Sublist"
begin

section \<open>Deduplication: removeDuplicatesFromSlice\<close>

text \<open>
  The Go function keeps a \<^verbatim>\<open>map[string]bool\<close> named \<^verbatim>\<open>check\<close> and a result slice.
  Reading a key that is absent from a Go map of booleans gives \<^verbatim>\<open>false\<close>; that default is
  written out in \<open>checkLookup\<close>. A nil slice and an empty slice are both the empty list.
\<close>

definition checkLookup :: "(string \<rightharpoonup> bool) \<Rightarrow> string \<Rightarrow> bool" where
  "checkLookup check content = (case check content of None \<Rightarrow> False | Some b \<Rightarrow> b)"

fun removeDuplicatesLoop ::
  "(string \<rightharpoonup> bool) \<Rightarrow> string list \<Rightarrow> string list \<Rightarrow> string list" where
  "removeDuplicatesLoop check newReturnSlice [] = newReturnSlice"
| "removeDuplicatesLoop check newReturnSlice (content # slice) =
     (if \<not> checkLookup check content
      then removeDuplicatesLoop (check(content \<mapsto> True)) (newReturnSlice @ [content]) slice
      else removeDuplicatesLoop check newReturnSlice slice)"

definition removeDuplicatesFromSlice :: "string list \<Rightarrow> string list" where
  "removeDuplicatesFromSlice slice = removeDuplicatesLoop Map.empty [] slice"

text \<open>
  The specification's wording, as a second definition: the elements at exactly those
  positions whose string has not occurred at an earlier position, in input order.
\<close>

definition firstOccurrences :: "string list \<Rightarrow> string list" where
  "firstOccurrences xs =
     map (\<lambda>i. xs ! i) (filter (\<lambda>i. xs ! i \<notin> set (take i xs)) [0..<length xs])"

section \<open>The Go standard library, as far as the program uses it\<close>

text \<open>
  The program calls \<^verbatim>\<open>net/url\<close>, \<^verbatim>\<open>strings\<close>, \<^verbatim>\<open>regexp\<close>, \<^verbatim>\<open>bufio\<close>, \<^verbatim>\<open>path/filepath\<close> and
  \<^verbatim>\<open>os\<close>. The definitions of this section follow the Go standard library (release 1.22)
  function by function and keep its names. A Go string is a sequence of bytes, here a list
  of 8-bit characters.
\<close>

subsection \<open>Bytes and package strings\<close>

definition byte :: "char \<Rightarrow> nat" where
  "byte c = of_char c"

definition inRange :: "char \<Rightarrow> char \<Rightarrow> char \<Rightarrow> bool" where
  \<comment> \<open>\<^verbatim>\<open>lo <= c && c <= hi\<close>\<close>
  "inRange lo hi c = (byte lo \<le> byte c \<and> byte c \<le> byte hi)"

definition isLetter :: "char \<Rightarrow> bool" where
  "isLetter c = (inRange CHR ''a'' CHR ''z'' c \<or> inRange CHR ''A'' CHR ''Z'' c)"

definition isDigit :: "char \<Rightarrow> bool" where
  "isDigit c = inRange CHR ''0'' CHR ''9'' c"

definition HasPrefix :: "string \<Rightarrow> string \<Rightarrow> bool" where
  "HasPrefix s pre = prefix pre s"

definition HasSuffix :: "string \<Rightarrow> string \<Rightarrow> bool" where
  "HasSuffix s suf = suffix suf s"

definition TrimSuffix :: "string \<Rightarrow> string \<Rightarrow> string" where
  "TrimSuffix s suf = (if HasSuffix s suf then take (length s - length suf) s else s)"

definition IndexByte :: "string \<Rightarrow> char \<Rightarrow> nat option" where
  \<comment> \<open>\<^verbatim>\<open>strings.Index\<close> with a one-byte separator; \<open>None\<close> is Go's \<^verbatim>\<open>-1\<close>.\<close>
  "IndexByte s c = (if c \<in> set s then Some (length (takeWhile (\<lambda>x. x \<noteq> c) s)) else None)"

definition LastIndexByte :: "string \<Rightarrow> char \<Rightarrow> nat option" where
  "LastIndexByte s c =
     (if c \<in> set s then Some (length s - Suc (length (takeWhile (\<lambda>x. x \<noteq> c) (rev s))))
      else None)"

fun Index :: "string \<Rightarrow> string \<Rightarrow> nat option" where
  \<comment> \<open>\<^verbatim>\<open>strings.Index\<close>: the position of the first occurrence of \<open>sep\<close>.\<close>
  "Index [] sep = (if sep = [] then Some 0 else None)"
| "Index (c # s) sep =
     (if prefix sep (c # s) then Some 0 else map_option Suc (Index s sep))"

definition Cut :: "string \<Rightarrow> char \<Rightarrow> string \<times> string \<times> bool" where
  \<comment> \<open>\<^verbatim>\<open>strings.Cut\<close> with a one-byte separator.\<close>
  "Cut s c =
     (case IndexByte s c of
        Some i \<Rightarrow> (take i s, drop (Suc i) s, True)
      | None \<Rightarrow> (s, [], False))"

definition Count :: "string \<Rightarrow> char \<Rightarrow> nat" where
  "Count s c = length (filter (\<lambda>x. x = c) s)"

definition toLowerByte :: "char \<Rightarrow> char" where
  "toLowerByte c = (if inRange CHR ''A'' CHR ''Z'' c then char_of (byte c + 32) else c)"

definition ToLower :: "string \<Rightarrow> string" where
  \<comment> \<open>\<^verbatim>\<open>strings.ToLower\<close> on ASCII text; the program applies it to a scheme only, which
      \<open>getScheme\<close> restricts to ASCII letters, digits, plus, minus and dot.\<close>
  "ToLower s = map toLowerByte s"

subsection \<open>Package net/url: escaping\<close>

datatype encoding =
  encodePath | encodePathSegment | encodeHost | encodeZone
  | encodeUserPassword | encodeQueryComponent | encodeFragment

datatype url_error =
  InvalidControlCharacter
  | EmptyURL
  | MissingProtocolScheme
  | InvalidURIForRequest
  | FirstPathSegmentColon
  | MissingBracket
  | InvalidPort string
  | InvalidUserinfo
  | EscapeError string
  | InvalidHostError string

definition ishex :: "char \<Rightarrow> bool" where
  "ishex c = (isDigit c \<or> inRange CHR ''a'' CHR ''f'' c \<or> inRange CHR ''A'' CHR ''F'' c)"

definition unhex :: "char \<Rightarrow> nat" where
  "unhex c =
     (if isDigit c then byte c - byte CHR ''0''
      else if inRange CHR ''a'' CHR ''f'' c then byte c - byte CHR ''a'' + 10
      else if inRange CHR ''A'' CHR ''F'' c then byte c - byte CHR ''A'' + 10
      else 0)"

definition shouldEscape :: "char \<Rightarrow> encoding \<Rightarrow> bool" where
  "shouldEscape c mode =
     (if isLetter c \<or> isDigit c then False
      else if (mode = encodeHost \<or> mode = encodeZone) \<and> c \<in> set (''!$&()*+,;=:[]<>'' @ [CHR 0x27, CHR 0x22])
        then False
      else if c \<in> set ''-_.~'' then False
      else if c \<in> set ''$&+,/:;=?@'' then
        (case mode of
           encodePath \<Rightarrow> c = CHR ''?''
         | encodePathSegment \<Rightarrow> c \<in> set ''/;,?''
         | encodeUserPassword \<Rightarrow> c \<in> set ''@/?:''
         | encodeQueryComponent \<Rightarrow> True
         | encodeFragment \<Rightarrow> False
         | _ \<Rightarrow> True)
      else if mode = encodeFragment \<and> c \<in> set ''!()*'' then False
      else True)"

fun unescapeCheck :: "encoding \<Rightarrow> string \<Rightarrow> url_error option" where
  \<comment> \<open>The first loop of \<^verbatim>\<open>unescape\<close>: the error it returns, if any.\<close>
  "unescapeCheck mode [] = None"
| "unescapeCheck mode (c # s) =
     (if c = CHR ''%'' then
        (case s of
           h1 # h2 # s' \<Rightarrow>
             if \<not> ishex h1 \<or> \<not> ishex h2 then Some (EscapeError (take 3 (c # s)))
             else if mode = encodeHost \<and> unhex h1 < 8 \<and> [c, h1, h2] \<noteq> ''%25''
               then Some (EscapeError [c, h1, h2])
             else if mode = encodeZone \<and> [c, h1, h2] \<noteq> ''%25''
                     \<and> char_of (unhex h1 * 16 + unhex h2) \<noteq> CHR '' ''
                     \<and> shouldEscape (char_of (unhex h1 * 16 + unhex h2)) encodeHost
               then Some (EscapeError [c, h1, h2])
             else unescapeCheck mode s'
         | _ \<Rightarrow> Some (EscapeError (take 3 (c # s))))
      else if c = CHR ''+'' then unescapeCheck mode s
      else if (mode = encodeHost \<or> mode = encodeZone) \<and> byte c < 128 \<and> shouldEscape c encodeHost
        then Some (InvalidHostError [c])
      else unescapeCheck mode s)"

fun unescapeDecode :: "encoding \<Rightarrow> string \<Rightarrow> string" where
  \<comment> \<open>The second loop of \<^verbatim>\<open>unescape\<close>, run on a string the first loop accepted.\<close>
  "unescapeDecode mode [] = []"
| "unescapeDecode mode (c # s) =
     (if c = CHR ''%'' then
        (case s of
           h1 # h2 # s' \<Rightarrow> char_of (unhex h1 * 16 + unhex h2) # unescapeDecode mode s'
         | _ \<Rightarrow> [])
      else if c = CHR ''+'' then
        (if mode = encodeQueryComponent then CHR '' '' else CHR ''+'') # unescapeDecode mode s
      else c # unescapeDecode mode s)"

definition unescape :: "string \<Rightarrow> encoding \<Rightarrow> url_error + string" where
  "unescape s mode =
     (case unescapeCheck mode s of
        Some e \<Rightarrow> Inl e
      | None \<Rightarrow> Inr (unescapeDecode mode s))"

definition upperhex :: "nat \<Rightarrow> char" where
  "upperhex n = ''0123456789ABCDEF'' ! (n mod 16)"

definition escape :: "string \<Rightarrow> encoding \<Rightarrow> string" where
  "escape s mode =
     concat (map (\<lambda>c.
       if shouldEscape c mode then
         (if c = CHR '' '' \<and> mode = encodeQueryComponent then ''+''
          else [CHR ''%'', upperhex (byte c div 16), upperhex (byte c mod 16)])
       else [c]) s)"

definition validEncoded :: "string \<Rightarrow> encoding \<Rightarrow> bool" where
  "validEncoded s mode =
     list_all (\<lambda>c.
       if c \<in> set (''!$&()*+,;=:@'' @ [CHR 0x27]) then True
       else if c \<in> set ''[]'' then True
       else if c = CHR ''%'' then True
       else \<not> shouldEscape c mode) s"

subsection \<open>Package net/url: parsing\<close>

record Userinfo =
  username :: string
  password :: string
  passwordSet :: bool

record URL =
  Scheme :: string
  Opaque :: string
  User :: "Userinfo option"
  Host :: string
  Path :: string
  RawPath :: string
  OmitHost :: bool
  ForceQuery :: bool
  RawQuery :: string
  Fragment :: string
  RawFragment :: string

definition newURL :: URL where
  \<comment> \<open>\<^verbatim>\<open>new(URL)\<close>: every field at its zero value.\<close>
  "newURL = \<lparr>Scheme = [], Opaque = [], User = None, Host = [], Path = [], RawPath = [],
     OmitHost = False, ForceQuery = False, RawQuery = [], Fragment = [], RawFragment = []\<rparr>"

definition stringContainsCTLByte :: "string \<Rightarrow> bool" where
  "stringContainsCTLByte s = list_ex (\<lambda>b. byte b < byte CHR '' '' \<or> byte b = 0x7f) s"

fun getSchemeLoop :: "string \<Rightarrow> string \<Rightarrow> string \<Rightarrow> url_error + (string \<times> string)" where
  \<comment> \<open>\<open>getSchemeLoop rawURL pre rest\<close>: the loop of \<^verbatim>\<open>getScheme\<close> at index \<open>length pre\<close>,
      where \<open>rawURL = pre @ rest\<close>.\<close>
  "getSchemeLoop rawURL pre [] = Inr ([], rawURL)"
| "getSchemeLoop rawURL pre (c # rest) =
     (if isLetter c then getSchemeLoop rawURL (pre @ [c]) rest
      else if isDigit c \<or> c = CHR ''+'' \<or> c = CHR ''-'' \<or> c = CHR ''.'' then
        (if pre = [] then Inr ([], rawURL) else getSchemeLoop rawURL (pre @ [c]) rest)
      else if c = CHR '':'' then
        (if pre = [] then Inl MissingProtocolScheme else Inr (pre, rest))
      else Inr ([], rawURL))"

definition getScheme :: "string \<Rightarrow> url_error + (string \<times> string)" where
  "getScheme rawURL = getSchemeLoop rawURL [] rawURL"

definition validOptionalPort :: "string \<Rightarrow> bool" where
  "validOptionalPort port =
     (case port of
        [] \<Rightarrow> True
      | c # ds \<Rightarrow> c = CHR '':'' \<and> list_all isDigit ds)"

definition validUserinfo :: "string \<Rightarrow> bool" where
  "validUserinfo s =
     list_all (\<lambda>r. inRange CHR ''A'' CHR ''Z'' r \<or> inRange CHR ''a'' CHR ''z'' r
                  \<or> inRange CHR ''0'' CHR ''9'' r
                  \<or> r \<in> set (''-._:~!$&()*+,;=%@'' @ [CHR 0x27])) s"

definition parseHost :: "string \<Rightarrow> url_error + string" where
  "parseHost host =
     (if HasPrefix host ''['' then
        (case LastIndexByte host CHR '']'' of
           None \<Rightarrow> Inl MissingBracket
         | Some i \<Rightarrow>
             let colonPort = drop (Suc i) host in
             if \<not> validOptionalPort colonPort then Inl (InvalidPort colonPort)
             else
               (case Index (take i host) ''%25'' of
                  Some zone \<Rightarrow>
                    (case unescape (take zone host) encodeHost of
                       Inl e \<Rightarrow> Inl e
                     | Inr host1 \<Rightarrow>
                         (case unescape (drop zone (take i host)) encodeZone of
                            Inl e \<Rightarrow> Inl e
                          | Inr host2 \<Rightarrow>
                              (case unescape (drop i host) encodeHost of
                                 Inl e \<Rightarrow> Inl e
                               | Inr host3 \<Rightarrow> Inr (host1 @ host2 @ host3))))
                | None \<Rightarrow> unescape host encodeHost))
      else
        (case LastIndexByte host CHR '':'' of
           Some i \<Rightarrow>
             let colonPort = drop i host in
             if \<not> validOptionalPort colonPort then Inl (InvalidPort colonPort)
             else unescape host encodeHost
         | None \<Rightarrow> unescape host encodeHost))"

definition parseUserinfo :: "string \<Rightarrow> url_error + Userinfo" where
  \<comment> \<open>The second half of \<^verbatim>\<open>parseAuthority\<close>: the text before the last \<^verbatim>\<open>@\<close>.\<close>
  "parseUserinfo userinfo =
     (if \<not> validUserinfo userinfo then Inl InvalidUserinfo
      else if CHR '':'' \<notin> set userinfo then
        (case unescape userinfo encodeUserPassword of
           Inl e \<Rightarrow> Inl e
         | Inr u \<Rightarrow> Inr \<lparr>username = u, password = [], passwordSet = False\<rparr>)
      else
        (case Cut userinfo CHR '':'' of
           (uname, pw, _) \<Rightarrow>
             (case unescape uname encodeUserPassword of
                Inl e \<Rightarrow> Inl e
              | Inr u \<Rightarrow>
                  (case unescape pw encodeUserPassword of
                     Inl e \<Rightarrow> Inl e
                   | Inr p \<Rightarrow> Inr \<lparr>username = u, password = p, passwordSet = True\<rparr>))))"

definition parseAuthority :: "string \<Rightarrow> url_error + (Userinfo option \<times> string)" where
  "parseAuthority authority =
     (case LastIndexByte authority CHR ''@'' of
        None \<Rightarrow>
          (case parseHost authority of
             Inl e \<Rightarrow> Inl e
           | Inr host \<Rightarrow> Inr (None, host))
      | Some i \<Rightarrow>
          (case parseHost (drop (Suc i) authority) of
             Inl e \<Rightarrow> Inl e
           | Inr host \<Rightarrow>
               (case parseUserinfo (take i authority) of
                  Inl e \<Rightarrow> Inl e
                | Inr user \<Rightarrow> Inr (Some user, host))))"

definition setPath :: "URL \<Rightarrow> string \<Rightarrow> url_error + URL" where
  "setPath u p =
     (case unescape p encodePath of
        Inl e \<Rightarrow> Inl e
      | Inr path \<Rightarrow>
          Inr (u\<lparr>Path := path,
                 RawPath := (if p = escape path encodePath then [] else p)\<rparr>))"

definition setFragment :: "URL \<Rightarrow> string \<Rightarrow> url_error + URL" where
  "setFragment u f =
     (case unescape f encodeFragment of
        Inl e \<Rightarrow> Inl e
      | Inr frag \<Rightarrow>
          Inr (u\<lparr>Fragment := frag,
                 RawFragment := (if f = escape frag encodeFragment then [] else f)\<rparr>))"

definition splitQuery :: "string \<Rightarrow> string \<times> string \<times> bool" where
  \<comment> \<open>The query step of \<^verbatim>\<open>parse\<close>: the rest without its query, \<^verbatim>\<open>RawQuery\<close> and
      \<^verbatim>\<open>ForceQuery\<close>.\<close>
  "splitQuery rest =
     (if HasSuffix rest ''?'' \<and> Count rest CHR ''?'' = 1 then (butlast rest, [], True)
      else (case Cut rest CHR ''?'' of (r, q, _) \<Rightarrow> (r, q, False)))"

definition parseFrom :: "URL \<Rightarrow> string \<Rightarrow> bool \<Rightarrow> url_error + URL" where
  \<comment> \<open>\<^verbatim>\<open>parse\<close> from the point where scheme and query have been split off.\<close>
  "parseFrom url rest viaRequest =
     (if \<not> HasPrefix rest ''/'' \<and> Scheme url \<noteq> [] then Inr (url\<lparr>Opaque := rest\<rparr>)
      else if \<not> HasPrefix rest ''/'' \<and> viaRequest then Inl InvalidURIForRequest
      else if \<not> HasPrefix rest ''/'' \<and> CHR '':'' \<in> set (fst (Cut rest CHR ''/''))
        then Inl FirstPathSegmentColon
      else if (Scheme url \<noteq> [] \<or> \<not> viaRequest \<and> \<not> HasPrefix rest ''///'')
              \<and> HasPrefix rest ''//'' then
        (let authority0 = drop 2 rest;
             authority = (case IndexByte authority0 CHR ''/'' of
                            Some i \<Rightarrow> take i authority0 | None \<Rightarrow> authority0);
             rest' = (case IndexByte authority0 CHR ''/'' of
                        Some i \<Rightarrow> drop i authority0 | None \<Rightarrow> [])
         in case parseAuthority authority of
              Inl e \<Rightarrow> Inl e
            | Inr (user, host) \<Rightarrow> setPath (url\<lparr>User := user, Host := host\<rparr>) rest')
      else if Scheme url \<noteq> [] \<and> HasPrefix rest ''/'' then
        setPath (url\<lparr>OmitHost := True\<rparr>) rest
      else setPath url rest)"

definition parse :: "string \<Rightarrow> bool \<Rightarrow> url_error + URL" where
  "parse rawURL viaRequest =
     (if stringContainsCTLByte rawURL then Inl InvalidControlCharacter
      else if rawURL = [] \<and> viaRequest then Inl EmptyURL
      else if rawURL = ''*'' then Inr (newURL\<lparr>Path := ''*''\<rparr>)
      else
        (case getScheme rawURL of
           Inl e \<Rightarrow> Inl e
         | Inr (scheme, rest0) \<Rightarrow>
             (case splitQuery rest0 of
                (rest, rawQuery, forceQuery) \<Rightarrow>
                  parseFrom (newURL\<lparr>Scheme := ToLower scheme, ForceQuery := forceQuery,
                                     RawQuery := rawQuery\<rparr>) rest viaRequest)))"

definition ParseRequestURI :: "string \<Rightarrow> url_error + URL" where
  \<comment> \<open>\<^verbatim>\<open>url.ParseRequestURI\<close>; the error is the cause, without the \<^verbatim>\<open>*url.Error\<close> wrapper.\<close>
  "ParseRequestURI rawURL = parse rawURL True"

definition Parse :: "string \<Rightarrow> url_error + URL" where
  \<comment> \<open>\<^verbatim>\<open>url.Parse\<close>: the fragment is cut off first and set last.\<close>
  "Parse rawURL =
     (case Cut rawURL CHR ''#'' of
        (u, frag, _) \<Rightarrow>
          (case parse u False of
             Inl e \<Rightarrow> Inl e
           | Inr url \<Rightarrow> if frag = [] then Inr url else setFragment url frag))"

definition splitHostPort :: "string \<Rightarrow> string \<times> string" where
  "splitHostPort hostPort =
     (let (host, port) =
        (case LastIndexByte hostPort CHR '':'' of
           Some colon \<Rightarrow>
             if validOptionalPort (drop colon hostPort)
             then (take colon hostPort, drop (Suc colon) hostPort)
             else (hostPort, [])
         | None \<Rightarrow> (hostPort, []))
      in if HasPrefix host ''['' \<and> HasSuffix host '']''
         then (butlast (tl host), port) else (host, port))"

definition Hostname :: "URL \<Rightarrow> string" where
  "Hostname u = fst (splitHostPort (Host u))"

subsection \<open>Package net/url: serialising\<close>

definition UserinfoString :: "Userinfo \<Rightarrow> string" where
  "UserinfoString ui =
     escape (username ui) encodeUserPassword
     @ (if passwordSet ui then '':'' @ escape (password ui) encodeUserPassword else [])"

definition EscapedPath :: "URL \<Rightarrow> string" where
  "EscapedPath u =
     (if RawPath u \<noteq> [] \<and> validEncoded (RawPath u) encodePath
         \<and> unescape (RawPath u) encodePath = Inr (Path u) then RawPath u
      else if Path u = ''*'' then ''*''
      else escape (Path u) encodePath)"

definition EscapedFragment :: "URL \<Rightarrow> string" where
  "EscapedFragment u =
     (if RawFragment u \<noteq> [] \<and> validEncoded (RawFragment u) encodeFragment
         \<and> unescape (RawFragment u) encodeFragment = Inr (Fragment u) then RawFragment u
      else escape (Fragment u) encodeFragment)"

definition URLString :: "URL \<Rightarrow> string" where
  \<comment> \<open>\<^verbatim>\<open>(*URL).String\<close>; \<open>buf\<close> is the builder's content at each step.\<close>
  "URLString u =
     (let buf0 = (if Scheme u \<noteq> [] then Scheme u @ '':'' else []);
          buf1 =
            (if Opaque u \<noteq> [] then buf0 @ Opaque u
             else
               (let bufA =
                      (if Scheme u \<noteq> [] \<or> Host u \<noteq> [] \<or> User u \<noteq> None then
                         (if OmitHost u \<and> Host u = [] \<and> User u = None then buf0
                          else
                            buf0
                            @ (if Host u \<noteq> [] \<or> Path u \<noteq> [] \<or> User u \<noteq> None then ''//'' else [])
                            @ (case User u of
                                 Some ui \<Rightarrow> UserinfoString ui @ ''@''
                               | None \<Rightarrow> [])
                            @ (if Host u \<noteq> [] then escape (Host u) encodeHost else []))
                       else buf0);
                    path = EscapedPath u;
                    bufB = (if path \<noteq> [] \<and> hd path \<noteq> CHR ''/'' \<and> Host u \<noteq> []
                            then bufA @ ''/'' else bufA);
                    bufC = (if bufB = [] \<and> CHR '':'' \<in> set (fst (Cut path CHR ''/''))
                            then bufB @ ''./'' else bufB)
                in bufC @ path));
          buf2 = (if ForceQuery u \<or> RawQuery u \<noteq> [] then buf1 @ ''?'' @ RawQuery u else buf1)
      in if Fragment u \<noteq> [] then buf2 @ ''#'' @ EscapedFragment u else buf2)"

subsection \<open>Package regexp: the pattern of extractURLsFromFile\<close>

text \<open>
  The only pattern the program compiles is \<^verbatim>\<open>http[s]?://[^\s"]+\<close>. In Go's syntax
  \<^verbatim>\<open>\s\<close> is the class of tab, newline, form feed, carriage return and space. The matcher
  below is that pattern at the start of a string, with the preference order of the
  regexp package: the optional \<^verbatim>\<open>s\<close> is tried first, the final repetition takes as many
  bytes as it can. It returns the length of the match.
\<close>

definition isSpaceClass :: "char \<Rightarrow> bool" where
  "isSpaceClass c = (c \<in> set [CHR 0x09, CHR 0x0A, CHR 0x0C, CHR 0x0D, CHR '' ''])"

definition urlClass :: "char \<Rightarrow> bool" where
  \<comment> \<open>\<^verbatim>\<open>[^\s"]\<close>\<close>
  "urlClass c = (\<not> isSpaceClass c \<and> c \<noteq> CHR 0x22)"

definition matchTail :: "string \<Rightarrow> nat option" where
  \<comment> \<open>\<^verbatim>\<open>://[^\s"]+\<close> at the start of the string.\<close>
  "matchTail r =
     (if prefix ''://'' r \<and> takeWhile urlClass (drop 3 r) \<noteq> []
      then Some (3 + length (takeWhile urlClass (drop 3 r))) else None)"

definition matchAt :: "string \<Rightarrow> nat option" where
  "matchAt s =
     (if prefix ''http'' s then
        (case (if prefix ''s'' (drop 4 s) then matchTail (drop 5 s) else None) of
           Some n \<Rightarrow> Some (5 + n)
         | None \<Rightarrow> map_option (\<lambda>n. 4 + n) (matchTail (drop 4 s)))
      else None)"

lemma matchAt_positive: "matchAt s = Some n \<Longrightarrow> 0 < n \<and> s \<noteq> []"
  by (auto simp: matchAt_def split: if_splits option.splits)

function FindAllString :: "string \<Rightarrow> string list" where
  \<comment> \<open>\<^verbatim>\<open>re.FindAllString(line, -1)\<close>: the leftmost match at or after the current position,
      then on from the end of that match.\<close>
  "FindAllString s =
     (case matchAt s of
        Some n \<Rightarrow> take n s # FindAllString (drop n s)
      | None \<Rightarrow> (case s of [] \<Rightarrow> [] | c # t \<Rightarrow> FindAllString t))"
  by pat_completeness auto
termination
  by (relation "measure length") (auto dest: matchAt_positive)

declare FindAllString.simps [simp del]

subsection \<open>Package bufio: Scanner with ScanLines\<close>

definition MaxScanTokenSize :: nat where
  "MaxScanTokenSize = 64 * 1024"

definition dropCR :: "string \<Rightarrow> string" where
  "dropCR data = (if data \<noteq> [] \<and> last data = CHR 0x0D then butlast data else data)"

function scanLines :: "string \<Rightarrow> string list \<times> bool" where
  \<comment> \<open>The tokens \<^verbatim>\<open>scanner.Scan\<close> delivers for the bytes of a file, and whether scanning
      stopped with \<^verbatim>\<open>bufio.ErrTooLong\<close>: a line that does not end within the scanner's
      buffer of \<open>MaxScanTokenSize\<close> bytes.\<close>
  "scanLines data =
     (if data = [] then ([], False)
      else
        (case IndexByte data CHR 0x0A of
           Some i \<Rightarrow>
             if MaxScanTokenSize \<le> i then ([], True)
             else (case scanLines (drop (Suc i) data) of
                     (ls, tooLong) \<Rightarrow> (dropCR (take i data) # ls, tooLong))
         | None \<Rightarrow>
             if MaxScanTokenSize \<le> length data then ([], True)
             else ([dropCR data], False)))"
  by pat_completeness auto
termination
  by (relation "measure length") (auto simp: IndexByte_def split: if_splits)

declare scanLines.simps [simp del]

subsection \<open>Package bufio over os: Writer\<close>

text \<open>
  The output file as the operating system holds it: the bytes written so far and the number
  of further bytes the device accepts. A write beyond that writes what fits and fails.
\<close>

record osFile =
  fdata :: string
  space :: nat

definition fileWrite :: "osFile \<Rightarrow> string \<Rightarrow> osFile \<times> nat \<times> bool" where
  \<comment> \<open>\<^verbatim>\<open>(*os.File).Write\<close>: the file, the number of bytes written, and whether it failed.\<close>
  "fileWrite f bs =
     (if length bs \<le> space f
      then (f\<lparr>fdata := fdata f @ bs, space := space f - length bs\<rparr>, length bs, False)
      else (f\<lparr>fdata := fdata f @ take (space f) bs, space := 0\<rparr>, space f, True))"

record Writer =
  wr :: osFile
  buf :: string
  err :: bool

definition defaultBufSize :: nat where
  "defaultBufSize = 4096"

definition NewWriter :: "osFile \<Rightarrow> Writer" where
  "NewWriter f = \<lparr>wr = f, buf = [], err = False\<rparr>"

definition Available :: "Writer \<Rightarrow> nat" where
  "Available b = defaultBufSize - length (buf b)"

definition Flush :: "Writer \<Rightarrow> Writer" where
  \<comment> \<open>\<^verbatim>\<open>(*Writer).Flush\<close>; its error result is the field \<open>err\<close> of the writer returned.\<close>
  "Flush b =
     (if err b then b
      else if buf b = [] then b
      else
        (case fileWrite (wr b) (buf b) of
           (f, n, failed) \<Rightarrow>
             if failed then b\<lparr>wr := f, buf := drop n (buf b), err := True\<rparr>
             else b\<lparr>wr := f, buf := []\<rparr>))"

function WriteString :: "Writer \<Rightarrow> string \<Rightarrow> Writer" where
  \<comment> \<open>\<^verbatim>\<open>(*Writer).WriteString\<close> over an \<^verbatim>\<open>*os.File\<close>, which is an \<^verbatim>\<open>io.StringWriter\<close>:
      with an empty buffer a large string goes to the file directly.\<close>
  "WriteString b s =
     (if length s > Available b \<and> \<not> err b then
        (if buf b = [] then
           (case fileWrite (wr b) s of
              (f, n, failed) \<Rightarrow> WriteString (b\<lparr>wr := f, err := failed\<rparr>) (drop n s))
         else
           WriteString (Flush (b\<lparr>buf := buf b @ take (Available b) s\<rparr>)) (drop (Available b) s))
      else if err b then b
      else b\<lparr>buf := buf b @ s\<rparr>)"
  by pat_completeness auto
termination
proof (relation "measure (\<lambda>(b, s). 3 * length s + (if err b then 0 else if buf b = [] then 1 else 2))",
    goal_cases)
  case 1
  show ?case by simp
next
  case 2
  then show ?case
    by (auto simp: fileWrite_def Available_def defaultBufSize_def split: if_splits)
next
  case 3
  then show ?case
    by (auto simp: Flush_def fileWrite_def Available_def defaultBufSize_def split: if_splits)
qed

declare WriteString.simps [simp del]

subsection \<open>Package path/filepath: Ext and Walk\<close>

definition Ext :: "string \<Rightarrow> string" where
  \<comment> \<open>The suffix from the last dot of the last path element; the separator is \<^verbatim>\<open>/\<close>.\<close>
  "Ext path =
     (let elem = takeWhile (\<lambda>c. c \<noteq> CHR ''/'') (rev path)
      in if CHR ''.'' \<in> set elem
         then CHR ''.'' # rev (takeWhile (\<lambda>c. c \<noteq> CHR ''.'') elem) else [])"

datatype fsNode =
  File string
  | Dir string "fsNode list"
  | UnreadableDir string
  | NoLstat string

text \<open>
  A directory tree as \<^verbatim>\<open>filepath.Walk\<close> sees it. Every node carries the path the walk
  passes to its callback; the entries of a directory stand in the order of the walk
  (by name). \<open>File\<close> is any entry that is not a directory, \<open>UnreadableDir\<close> a
  directory whose names cannot be read, \<open>NoLstat\<close> an entry whose \<^verbatim>\<open>Lstat\<close> fails.
\<close>

datatype io_error =
  GetwdError
  | LstatError string
  | ReadDirError string
  | CouldNotOpen string
  | ErrorReading string
  | CouldNotCreate string
  | ErrorWriting
  | FlushError

section \<open>The program\<close>

subsection \<open>The world the program runs in\<close>

datatype inFile =
  NoOpen
  | Content string bool

text \<open>
  An input file either cannot be opened, or delivers bytes and then ends, normally or
  (flag set) with a read error. The log is the list of the messages the program prints,
  without the date, time and source position that the logger puts in front.
\<close>

datatype logLine =
  InvalidURLSkipped string
  | InvalidDomainSkipped string
  | FatalParse url_error
  | FatalListing io_error
  | NoTSVFilesFound
  | ExtractingFrom string
  | ErrorExtracting string io_error
  | ErrorSaving io_error
  | SuccessfullySaved string

datatype 'a run =
  Return 'a
  | Exit nat

record world =
  cwd :: "fsNode option"
  inputFiles :: "string \<Rightarrow> inFile"
  creatable :: "string \<Rightarrow> bool"
  freeSpace :: nat
  outputFiles :: "string \<rightharpoonup> string"

subsection \<open>listTSVFiles\<close>

fun walk :: "fsNode \<Rightarrow> string list \<Rightarrow> string list \<times> io_error option"
  and walkNames :: "fsNode list \<Rightarrow> string list \<Rightarrow> string list \<times> io_error option" where
  \<comment> \<open>\<^verbatim>\<open>filepath.Walk\<close> with the callback of listTSVFiles: the callback returns the error it
      is given, which stops the walk, and appends the path of a non-directory whose
      extension is \<^verbatim>\<open>.tsv\<close>.\<close>
  "walk (File path) tsvFiles =
     (if Ext path = ''.tsv'' then (tsvFiles @ [path], None) else (tsvFiles, None))"
| "walk (NoLstat path) tsvFiles = (tsvFiles, Some (LstatError path))"
| "walk (UnreadableDir path) tsvFiles = (tsvFiles, Some (ReadDirError path))"
| "walk (Dir path names) tsvFiles = walkNames names tsvFiles"
| "walkNames [] tsvFiles = (tsvFiles, None)"
| "walkNames (n # names) tsvFiles =
     (case walk n tsvFiles of
        (tsvFiles', Some e) \<Rightarrow> (tsvFiles', Some e)
      | (tsvFiles', None) \<Rightarrow> walkNames names tsvFiles')"

definition listTSVFiles :: "world \<Rightarrow> string list \<times> io_error option" where
  "listTSVFiles w =
     (case cwd w of
        None \<Rightarrow> ([], Some GetwdError)
      | Some currentDir \<Rightarrow> walk currentDir [])"

subsection \<open>extractURLsFromFile\<close>

fun extractMatches ::
  "string list \<Rightarrow> logLine list \<times> string list \<Rightarrow> logLine list \<times> string list" where
  \<comment> \<open>The inner loop, over the matches of one line; the state is the log and \<^verbatim>\<open>urls\<close>.\<close>
  "extractMatches [] (lg, urls) = (lg, urls)"
| "extractMatches (match # matches) (lg, urls) =
     (case ParseRequestURI match of
        Inl e \<Rightarrow> extractMatches matches (lg @ [InvalidURLSkipped match], urls)
      | Inr parsedURL \<Rightarrow> extractMatches matches (lg, urls @ [URLString parsedURL]))"

fun extractLines ::
  "string list \<Rightarrow> logLine list \<times> string list \<Rightarrow> logLine list \<times> string list" where
  \<comment> \<open>The outer loop, over the lines the scanner delivers.\<close>
  "extractLines [] st = st"
| "extractLines (line # lines) st =
     extractLines lines (extractMatches (FindAllString line) st)"

definition extractURLsFromFile ::
  "world \<Rightarrow> string \<Rightarrow> logLine list \<times> (io_error + string list)" where
  "extractURLsFromFile w fileName =
     (case inputFiles w fileName of
        NoOpen \<Rightarrow> ([], Inl (CouldNotOpen fileName))
      | Content bytes readError \<Rightarrow>
          (case scanLines bytes of
             (lines, tooLong) \<Rightarrow>
               (case extractLines lines ([], []) of
                  (lg, urls) \<Rightarrow>
                    if tooLong \<or> readError then (lg, Inl (ErrorReading fileName))
                    else (lg, Inr urls))))"

subsection \<open>saveURLsToFile\<close>

fun saveLoop :: "string list \<Rightarrow> Writer \<Rightarrow> Writer" where
  \<comment> \<open>The loop over \<^verbatim>\<open>urls\<close>; it is left at the first \<^verbatim>\<open>WriteString\<close> that fails.\<close>
  "saveLoop [] writer = writer"
| "saveLoop (url # urls) writer =
     (let writer' = WriteString writer (url @ [CHR 0x0A])
      in if err writer' then writer' else saveLoop urls writer')"

definition saveURLsToFile :: "world \<Rightarrow> string list \<Rightarrow> string \<Rightarrow> world \<times> io_error option" where
  "saveURLsToFile w urls outputFile =
     (if \<not> creatable w outputFile then (w, Some (CouldNotCreate outputFile))
      else
        (let writer = saveLoop urls (NewWriter \<lparr>fdata = [], space = freeSpace w\<rparr>)
         in if err writer
            then (w\<lparr>freeSpace := space (wr writer),
                     outputFiles := (outputFiles w)(outputFile \<mapsto> fdata (wr writer))\<rparr>,
                  Some ErrorWriting)
            else
              (let flushed = Flush writer
               in (w\<lparr>freeSpace := space (wr flushed),
                       outputFiles := (outputFiles w)(outputFile \<mapsto> fdata (wr flushed))\<rparr>,
                   if err flushed then Some FlushError else None))))"

subsection \<open>isUrlValid, getHostNameFromURL, cleanURLs\<close>

definition isUrlValid :: "string \<Rightarrow> bool" where
  "isUrlValid uri = (case ParseRequestURI uri of Inl e \<Rightarrow> False | Inr u \<Rightarrow> True)"

definition getHostNameFromURL :: "string \<Rightarrow> logLine list \<times> string run" where
  \<comment> \<open>\<^verbatim>\<open>log.Fatalln\<close> prints the error and calls \<^verbatim>\<open>os.Exit(1)\<close>.\<close>
  "getHostNameFromURL uri =
     (case Parse uri of
        Inl e \<Rightarrow> ([FatalParse e], Exit 1)
      | Inr content \<Rightarrow> ([], Return (Hostname content)))"

definition validDomains :: "string list" where
  "validDomains =
     [''s3.documentcloud.org'', ''documentcloud.org'', ''www.documentcloud.org'',
      ''beta.documentcloud.org'']"

fun domainLoop :: "string \<Rightarrow> string list \<Rightarrow> bool" where
  \<comment> \<open>The loop that sets \<^verbatim>\<open>isValid\<close> and breaks at the first equal domain.\<close>
  "domainLoop hostName [] = False"
| "domainLoop hostName (domain # domains) =
     (if hostName = domain then True else domainLoop hostName domains)"

definition unwantedSuffix :: string where
  \<comment> \<open>The literal \<^verbatim>\<open>target=&quot;_blank&quot;\<close>.\<close>
  "unwantedSuffix = ''target=&quot;_blank&quot;''"

fun cleanLoop ::
  "bool \<Rightarrow> string list \<Rightarrow> logLine list \<times> string list \<Rightarrow> logLine list \<times> string list run" where
  \<comment> \<open>The loop of cleanURLs. With \<open>strip\<close> it is the loop of \<^verbatim>\<open>main.go\<close>, which trims the
      suffix after it has taken the host name; without, the loop of the other source file.\<close>
  "cleanLoop strip [] (lg, newReturnSlice) = (lg, Return newReturnSlice)"
| "cleanLoop strip (content # urls) (lg, newReturnSlice) =
     (if isUrlValid content then
        (case getHostNameFromURL content of
           (lg', Exit code) \<Rightarrow> (lg @ lg', Exit code)
         | (lg', Return hostName) \<Rightarrow>
             (let content' = (if strip then TrimSuffix content unwantedSuffix else content)
              in if domainLoop hostName validDomains
                 then cleanLoop strip urls (lg @ lg', newReturnSlice @ [content'])
                 else cleanLoop strip urls
                        (lg @ lg' @ [InvalidDomainSkipped hostName], newReturnSlice)))
      else cleanLoop strip urls (lg, newReturnSlice))"

definition cleanURLs :: "string list \<Rightarrow> logLine list \<times> string list run" where
  \<comment> \<open>cleanURLs of \<^verbatim>\<open>main.go\<close>.\<close>
  "cleanURLs urls = cleanLoop True urls ([], [])"

definition cleanURLs_unstripped :: "string list \<Rightarrow> logLine list \<times> string list run" where
  \<comment> \<open>cleanURLs of the second source file, which does not trim.\<close>
  "cleanURLs_unstripped urls = cleanLoop False urls ([], [])"

subsection \<open>appendQuotesToString and main\<close>

definition appendQuotesToString :: "string list \<Rightarrow> string list" where
  \<comment> \<open>Only in the second source file: \<^verbatim>\<open>fmt.Sprintf("\"%s\",", str)\<close> for every string.\<close>
  "appendQuotesToString content = map (\<lambda>str. [CHR 0x22] @ str @ [CHR 0x22, CHR '',''] ) content"

fun extractAll ::
  "world \<Rightarrow> string list \<Rightarrow> logLine list \<times> string list \<Rightarrow> logLine list \<times> string list" where
  \<comment> \<open>The loop of main over the files found; a file that fails is logged and skipped.\<close>
  "extractAll w [] (lg, allURLs) = (lg, allURLs)"
| "extractAll w (fileName # tsvFiles) (lg, allURLs) =
     (case extractURLsFromFile w fileName of
        (lg', Inl e) \<Rightarrow>
          extractAll w tsvFiles
            (lg @ [ExtractingFrom fileName] @ lg' @ [ErrorExtracting fileName e], allURLs)
      | (lg', Inr urls) \<Rightarrow>
          extractAll w tsvFiles (lg @ [ExtractingFrom fileName] @ lg', allURLs @ urls))"

definition outputFileName :: string where
  "outputFileName = ''extracted_urls.txt''"

definition mainWith :: "bool \<Rightarrow> world \<Rightarrow> world \<times> logLine list \<times> nat" where
  \<comment> \<open>main; the result is the world afterwards, the log and the exit status. With the flag
      set it is main of \<^verbatim>\<open>main.go\<close>; without, main of the second source file, which does
      not trim and decorates the URLs before it saves them.\<close>
  "mainWith isMainGo w =
     (case listTSVFiles w of
        (tsvFiles, Some e) \<Rightarrow> (w, [FatalListing e], 1)
      | (tsvFiles, None) \<Rightarrow>
          if length tsvFiles = 0 then (w, [NoTSVFilesFound], 0)
          else
            (case extractAll w tsvFiles ([], []) of
               (lg1, allURLs) \<Rightarrow>
                 (case cleanLoop isMainGo (removeDuplicatesFromSlice allURLs) ([], []) of
                    (lg2, Exit code) \<Rightarrow> (w, lg1 @ lg2, code)
                  | (lg2, Return cleaned) \<Rightarrow>
                      (case saveURLsToFile w
                              (if isMainGo then cleaned else appendQuotesToString cleaned)
                              outputFileName of
                         (w', Some e) \<Rightarrow> (w', lg1 @ lg2 @ [ErrorSaving e], 0)
                       | (w', None) \<Rightarrow>
                           (w', lg1 @ lg2 @ [SuccessfullySaved outputFileName], 0)))))"

definition main :: "world \<Rightarrow> world \<times> logLine list \<times> nat" where
  "main w = mainWith True w"

definition main_unstripped :: "world \<Rightarrow> world \<times> logLine list \<times> nat" where
  "main_unstripped w = mainWith False w"

section \<open>Definitions that follow the specification's words\<close>

fun splitLinesFrom :: "string \<Rightarrow> string \<Rightarrow> string list" where
  \<comment> \<open>Reading a file back line by line: every newline ends a line; \<open>cur\<close> is the line
      being read. Bytes after the last newline, if any, form a last line.\<close>
  "splitLinesFrom cur [] = (if cur = [] then [] else [cur])"
| "splitLinesFrom cur (c # cs) =
     (if c = CHR 0x0A then cur # splitLinesFrom [] cs else splitLinesFrom (cur @ [c]) cs)"

definition splitLines :: "string \<Rightarrow> string list" where
  "splitLines content = splitLinesFrom [] content"

definition writtenLines :: "string list \<Rightarrow> string" where
  \<comment> \<open>Each string followed by a single newline, in sequence order.\<close>
  "writtenLines urls = concat (map (\<lambda>url. url @ [CHR 0x0A]) urls)"

definition reserialized :: "string \<Rightarrow> string option" where
  \<comment> \<open>What a candidate contributes to the result: nothing when it does not parse as a
      request URI, else the parser's re-serialization of it.\<close>
  "reserialized candidate =
     (case ParseRequestURI candidate of
        Inl e \<Rightarrow> None
      | Inr parsedURL \<Rightarrow> Some (URLString parsedURL))"

definition hostNameAllowed :: "string \<Rightarrow> bool" where
  \<comment> \<open>The host name that \<^verbatim>\<open>url.Parse\<close> finds in the string is one of the allowed domains.\<close>
  "hostNameAllowed s =
     (case Parse s of
        Inl e \<Rightarrow> False
      | Inr u \<Rightarrow> Hostname u \<in> set validDomains)"

section \<open>Concrete worlds and inputs\<close>

text \<open>The inputs at which the theorems below are instantiated.\<close>

definition emptyDirWorld :: world where
  "emptyDirWorld =
     \<lparr>cwd = Some (Dir ''/data'' [Dir ''/data/sub'' [File ''/data/sub/notes.txt'']]),
      inputFiles = (\<lambda>p. NoOpen), creatable = (\<lambda>p. True), freeSpace = 100,
      outputFiles = [''extracted_urls.txt'' \<mapsto> ''old'']\<rparr>"


definition plainWorld :: world where
  \<comment> \<open>No input files, an empty output directory and room for 4000 bytes.\<close>
  "plainWorld =
     \<lparr>cwd = None, inputFiles = (\<lambda>p. NoOpen), creatable = (\<lambda>p. True), freeSpace = 4000,
      outputFiles = Map.empty\<rparr>"

definition oneFileWorld :: world where
  \<comment> \<open>One input file of two lines with four candidates.\<close>
  "oneFileWorld =
     \<lparr>cwd = Some (Dir ''/data'' [File ''/data/in.tsv'']),
      inputFiles = (\<lambda>p. if p = ''/data/in.tsv''
         then Content (''1'' @ [CHR 0x09] @ ''http://a/b^c http://%zz/ x'' @ [CHR 0x0A]
                       @ ''https://www.documentcloud.org/d.pdf http://[::1/'' @ [CHR 0x0A]) False
         else NoOpen),
      creatable = (\<lambda>p. True), freeSpace = 4000, outputFiles = Map.empty\<rparr>"

section \<open>Properties\<close>

subsection \<open>Extraction on a literal line\<close>

text \<open>
  C5. On the line
  \<^verbatim>\<open>see https://www.documentcloud.org/docs/123.pdf and https://evil.example.com/x "https://s3.documentcloud.org/y\<close>
  the pattern of extractURLsFromFile yields exactly three candidates, in this order: the
  documentcloud URL, the evil.example.com URL, and the s3 URL that follows the double quote.
\<close>

theorem FindAllString_literal_line:
  "FindAllString
     (''see https://www.documentcloud.org/docs/123.pdf and https://evil.example.com/x ''
      @ [CHR 0x22] @ ''https://s3.documentcloud.org/y'')
   = [''https://www.documentcloud.org/docs/123.pdf'',
      ''https://evil.example.com/x'',
      ''https://s3.documentcloud.org/y'']"
  by code_simp

subsection \<open>No input files\<close>

text \<open>
  C8. When listTSVFiles returns an empty list and no error, main (in either source file)
  leaves the world as it is, so extracted\_urls.txt is neither created nor truncated and
  saveURLsToFile has not run; it logs that no .tsv files were found and the exit status
  is 0.
\<close>

theorem main_no_tsv_files:
  "listTSVFiles w = ([], None) \<Longrightarrow>
     main w = (w, [NoTSVFilesFound], 0) \<and> main_unstripped w = (w, [NoTSVFilesFound], 0)"
  by (simp add: main_def main_unstripped_def mainWith_def)

theorem main_no_tsv_files_witness:
  "listTSVFiles emptyDirWorld = ([], None)
   \<and> main emptyDirWorld = (emptyDirWorld, [NoTSVFilesFound], 0)
   \<and> main_unstripped emptyDirWorld = (emptyDirWorld, [NoTSVFilesFound], 0)
   \<and> outputFiles (fst (main emptyDirWorld)) ''extracted_urls.txt'' = Some ''old''"
proof -
  have h: "listTSVFiles emptyDirWorld = ([], None)"
    by (simp add: listTSVFiles_def emptyDirWorld_def Ext_def)
  have o: "outputFiles emptyDirWorld ''extracted_urls.txt'' = Some ''old''"
    by (simp add: emptyDirWorld_def)
  show ?thesis
    using main_no_tsv_files [OF h] h o by simp
qed

subsection \<open>Writing the output file\<close>

lemma Flush_ok:
  "\<not> err (Flush b) \<Longrightarrow>
     \<not> err b \<and> fdata (wr (Flush b)) = fdata (wr b) @ buf b \<and> buf (Flush b) = []"
  by (auto simp: Flush_def fileWrite_def split: if_splits)

lemma WriteString_ok:
  "\<not> err (WriteString b s) \<Longrightarrow>
     \<not> err b \<and>
     fdata (wr (WriteString b s)) @ buf (WriteString b s) = fdata (wr b) @ buf b @ s"
proof (induction b s rule: WriteString.induct)
  case (1 b s)
  show ?case
  proof (cases "length s > Available b \<and> \<not> err b")
    case False
    then show ?thesis
      using "1.prems" by (auto simp: WriteString.simps [of b s])
  next
    case big: True
    show ?thesis
    proof (cases "buf b = []")
      case True
      obtain f n failed where fw: "fileWrite (wr b) s = (f, n, failed)"
        by (cases "fileWrite (wr b) s") auto
      have ws: "WriteString b s = WriteString (b\<lparr>wr := f, err := failed\<rparr>) (drop n s)"
        using big True fw by (simp add: WriteString.simps [of b s])
      have ne: "\<not> err (WriteString (b\<lparr>wr := f, err := failed\<rparr>) (drop n s))"
        using "1.prems" ws by simp
      note ih = "1.IH"(1) [OF big True fw [symmetric] refl ne]
      from ih have nf: "\<not> failed" by simp
      with fw have "f = (wr b)\<lparr>fdata := fdata (wr b) @ s, space := space (wr b) - length s\<rparr>" "n = length s"
        by (auto simp: fileWrite_def split: if_splits)
      then show ?thesis
        using ih ws True big nf by auto
    next
      case False
      let ?b' = "Flush (b\<lparr>buf := buf b @ take (Available b) s\<rparr>)"
      have ws: "WriteString b s = WriteString ?b' (drop (Available b) s)"
        using big False by (simp add: WriteString.simps [of b s])
      have ne: "\<not> err (WriteString ?b' (drop (Available b) s))"
        using "1.prems" ws by simp
      note ih = "1.IH"(2) [OF big False ne]
      from Flush_ok [of "b\<lparr>buf := buf b @ take (Available b) s\<rparr>"] ih
      have "fdata (wr ?b') = fdata (wr b) @ buf b @ take (Available b) s" "buf ?b' = []"
        by auto
      then show ?thesis
        using ih ws big by simp
    qed
  qed
qed

lemma saveLoop_ok:
  "\<not> err (saveLoop urls b) \<Longrightarrow>
     \<not> err b \<and>
     fdata (wr (saveLoop urls b)) @ buf (saveLoop urls b) = fdata (wr b) @ buf b @ writtenLines urls"
proof (induction urls arbitrary: b)
  case Nil
  then show ?case by (simp add: writtenLines_def)
next
  case (Cons url urls)
  let ?b' = "WriteString b (url @ [CHR 0x0A])"
  have ne: "\<not> err ?b'"
    using Cons.prems by (auto simp: Let_def split: if_splits)
  then have sl: "saveLoop (url # urls) b = saveLoop urls ?b'"
    by (simp add: Let_def)
  from Cons.IH [of ?b'] Cons.prems sl
  have a: "fdata (wr (saveLoop urls ?b')) @ buf (saveLoop urls ?b')
           = fdata (wr ?b') @ buf ?b' @ writtenLines urls"
    by simp
  from WriteString_ok [OF ne]
  have b: "\<not> err b" "fdata (wr ?b') @ buf ?b' = fdata (wr b) @ buf b @ url @ [CHR 0x0A]"
    by auto
  have "fdata (wr ?b') @ buf ?b' @ writtenLines urls = (fdata (wr ?b') @ buf ?b') @ writtenLines urls"
    by simp
  also have "\<dots> = fdata (wr b) @ buf b @ writtenLines (url # urls)"
    unfolding b(2) by (simp add: writtenLines_def)
  finally show ?case
    using a b(1) sl by simp
qed

lemma saveURLsToFile_content:
  assumes "saveURLsToFile w urls outputFile = (w', None)"
  shows "outputFiles w' outputFile = Some (writtenLines urls)"
proof -
  let ?wr = "saveLoop urls (NewWriter \<lparr>fdata = [], space = freeSpace w\<rparr>)"
  from assms have c: "creatable w outputFile" and e: "\<not> err ?wr" and f: "\<not> err (Flush ?wr)"
    and w': "w' = w\<lparr>freeSpace := space (wr (Flush ?wr)),
                     outputFiles := (outputFiles w)(outputFile \<mapsto> fdata (wr (Flush ?wr)))\<rparr>"
    by (auto simp: saveURLsToFile_def Let_def split: if_splits)
  from saveLoop_ok [OF e] have "fdata (wr ?wr) @ buf ?wr = writtenLines urls"
    by (simp add: NewWriter_def)
  with Flush_ok [OF f] have "fdata (wr (Flush ?wr)) = writtenLines urls"
    by simp
  then show ?thesis using w' by simp
qed

lemma splitLinesFrom_line:
  "CHR 0x0A \<notin> set url \<Longrightarrow>
     splitLinesFrom cur (url @ CHR 0x0A # rest) = (cur @ url) # splitLinesFrom [] rest"
  by (induction url arbitrary: cur) auto

lemma splitLines_writtenLines:
  "\<forall>url \<in> set urls. CHR 0x0A \<notin> set url \<Longrightarrow> splitLines (writtenLines urls) = urls"
  unfolding splitLines_def writtenLines_def
  by (induction urls) (auto simp: splitLinesFrom_line)


text \<open>
  C9 fails as stated, for every sequence of strings: a string that contains a newline is
  written as it is, and read back as two lines.
\<close>

theorem saveURLsToFile_newline_counterexample:
  "snd (saveURLsToFile plainWorld [[CHR ''a'', CHR 0x0A, CHR ''b'']] ''extracted_urls.txt'') = None
   \<and> outputFiles (fst (saveURLsToFile plainWorld [[CHR ''a'', CHR 0x0A, CHR ''b'']]
                          ''extracted_urls.txt'')) ''extracted_urls.txt''
       = Some [CHR ''a'', CHR 0x0A, CHR ''b'', CHR 0x0A]
   \<and> splitLines [CHR ''a'', CHR 0x0A, CHR ''b'', CHR 0x0A] = [''a'', ''b'']
   \<and> length (splitLines [CHR ''a'', CHR 0x0A, CHR ''b'', CHR 0x0A]) \<noteq> length [[CHR ''a'', CHR 0x0A, CHR ''b'']]"
  by code_simp

text \<open>
  C9, amended. For every sequence of N strings none of which contains a newline byte, when
  saveURLsToFile reports no error the file holds each string followed by exactly one
  newline, in sequence order, and splitting that content at the newlines yields exactly
  the N strings.
\<close>

theorem saveURLsToFile_round_trip:
  assumes "\<forall>url \<in> set urls. CHR 0x0A \<notin> set url"
    and "snd (saveURLsToFile w urls outputFile) = None"
  shows "outputFiles (fst (saveURLsToFile w urls outputFile)) outputFile = Some (writtenLines urls)
         \<and> splitLines (writtenLines urls) = urls
         \<and> length (splitLines (writtenLines urls)) = length urls"
proof -
  have "saveURLsToFile w urls outputFile = (fst (saveURLsToFile w urls outputFile), None)"
    using assms(2) by (simp add: prod_eq_iff)
  then have "outputFiles (fst (saveURLsToFile w urls outputFile)) outputFile
             = Some (writtenLines urls)"
    by (rule saveURLsToFile_content)
  then show ?thesis
    using splitLines_writtenLines [OF assms(1)] by simp
qed

theorem saveURLsToFile_round_trip_witness:
  "(CHR 0x0A \<notin> set ''https://documentcloud.org/a'' \<and> CHR 0x0A \<notin> set ''b'')
   \<and> snd (saveURLsToFile plainWorld [''https://documentcloud.org/a'', ''b'']
              ''extracted_urls.txt'') = None
   \<and> outputFiles (fst (saveURLsToFile plainWorld [''https://documentcloud.org/a'', ''b'']
                          ''extracted_urls.txt'')) ''extracted_urls.txt''
       = Some (''https://documentcloud.org/a'' @ [CHR 0x0A] @ ''b'' @ [CHR 0x0A])
   \<and> splitLines (''https://documentcloud.org/a'' @ [CHR 0x0A] @ ''b'' @ [CHR 0x0A])
       = [''https://documentcloud.org/a'', ''b'']"
proof -
  have nl: "\<forall>url \<in> set [''https://documentcloud.org/a'', ''b'']. CHR 0x0A \<notin> set url"
    by simp
  have ok: "snd (saveURLsToFile plainWorld [''https://documentcloud.org/a'', ''b'']
              ''extracted_urls.txt'') = None"
    by code_simp
  have wl: "writtenLines [''https://documentcloud.org/a'', ''b'']
            = ''https://documentcloud.org/a'' @ [CHR 0x0A] @ ''b'' @ [CHR 0x0A]"
    by (simp add: writtenLines_def)
  show ?thesis
    using saveURLsToFile_round_trip [OF nl ok] ok wl by simp
qed

subsection \<open>Candidates that fail to parse, and re-serialization\<close>

lemma extractMatches_closed_form:
  "extractMatches matches (lg, urls) =
     (lg @ map InvalidURLSkipped (filter (\<lambda>m. reserialized m = None) matches),
      urls @ List.map_filter reserialized matches)"
  by (induction matches arbitrary: lg urls)
     (auto simp: reserialized_def split: sum.splits)

lemma map_filter_append_lists:
  "List.map_filter f (xs @ ys) = List.map_filter f xs @ List.map_filter f ys"
  by (simp add: List.map_filter_def)

lemma extractLines_closed_form:
  "extractLines lines (lg, urls) =
     (lg @ map InvalidURLSkipped
             (filter (\<lambda>m. reserialized m = None) (concat (map FindAllString lines))),
      urls @ List.map_filter reserialized (concat (map FindAllString lines)))"
proof (induction lines arbitrary: lg urls)
  case Nil
  then show ?case by (simp add: List.map_filter_simps)
next
  case (Cons line lines)
  show ?case
    by (simp add: extractMatches_closed_form Cons.IH map_filter_append_lists)
qed

text \<open>
  C6. In extractURLsFromFile every candidate of every line is handled, in order: a candidate
  that does not parse as a request URI adds one log line and nothing to the result, and
  the loop goes on with the next candidate; a candidate that parses adds the parser's
  re-serialization of it. The function returns to its caller in every case. The
  re-serialization can differ from the candidate: \<^verbatim>\<open>http://a/b^c\<close> is matched whole and
  kept as \<^verbatim>\<open>http://a/b%5Ec\<close>.
\<close>

theorem extractURLsFromFile_candidates:
  assumes "inputFiles w fileName = Content bytes False"
    and "scanLines bytes = (lines, False)"
  shows "extractURLsFromFile w fileName =
           (map InvalidURLSkipped
              (filter (\<lambda>m. reserialized m = None) (concat (map FindAllString lines))),
            Inr (List.map_filter reserialized (concat (map FindAllString lines))))
         \<and> FindAllString ''http://a/b^c'' = [''http://a/b^c'']
         \<and> reserialized ''http://a/b^c'' = Some ''http://a/b%5Ec''"
proof -
  have a: "FindAllString ''http://a/b^c'' = [''http://a/b^c'']"
    by code_simp
  have b: "reserialized ''http://a/b^c'' = Some ''http://a/b%5Ec''"
    by code_simp
  show ?thesis
    using assms a b by (simp add: extractURLsFromFile_def extractLines_closed_form)
qed



theorem extractURLsFromFile_candidates_witness:
  "inputFiles oneFileWorld ''/data/in.tsv''
     = Content (''1'' @ [CHR 0x09] @ ''http://a/b^c http://%zz/ x'' @ [CHR 0x0A]
                @ ''https://www.documentcloud.org/d.pdf http://[::1/'' @ [CHR 0x0A]) False
   \<and> scanLines (''1'' @ [CHR 0x09] @ ''http://a/b^c http://%zz/ x'' @ [CHR 0x0A]
                @ ''https://www.documentcloud.org/d.pdf http://[::1/'' @ [CHR 0x0A])
       = ([''1'' @ [CHR 0x09] @ ''http://a/b^c http://%zz/ x'',
           ''https://www.documentcloud.org/d.pdf http://[::1/''], False)
   \<and> extractURLsFromFile oneFileWorld ''/data/in.tsv''
       = ([InvalidURLSkipped ''http://%zz/'', InvalidURLSkipped ''http://[::1/''],
          Inr [''http://a/b%5Ec'', ''https://www.documentcloud.org/d.pdf''])"
proof -
  have f: "inputFiles oneFileWorld ''/data/in.tsv''
     = Content (''1'' @ [CHR 0x09] @ ''http://a/b^c http://%zz/ x'' @ [CHR 0x0A]
                @ ''https://www.documentcloud.org/d.pdf http://[::1/'' @ [CHR 0x0A]) False"
    by (simp add: oneFileWorld_def)
  have s: "scanLines (''1'' @ [CHR 0x09] @ ''http://a/b^c http://%zz/ x'' @ [CHR 0x0A]
                @ ''https://www.documentcloud.org/d.pdf http://[::1/'' @ [CHR 0x0A])
       = ([''1'' @ [CHR 0x09] @ ''http://a/b^c http://%zz/ x'',
           ''https://www.documentcloud.org/d.pdf http://[::1/''], False)"
    by (simp add: scanLines.simps IndexByte_def MaxScanTokenSize_def dropCR_def)
  have c: "concat (map FindAllString [''1'' @ [CHR 0x09] @ ''http://a/b^c http://%zz/ x'',
           ''https://www.documentcloud.org/d.pdf http://[::1/''])
        = [''http://a/b^c'', ''http://%zz/'', ''https://www.documentcloud.org/d.pdf'', ''http://[::1/'']"
    by code_simp
  have r: "reserialized ''http://a/b^c'' = Some ''http://a/b%5Ec''"
     "reserialized ''http://%zz/'' = None"
     "reserialized ''https://www.documentcloud.org/d.pdf'' = Some ''https://www.documentcloud.org/d.pdf''"
     "reserialized ''http://[::1/'' = None"
    by code_simp+
  show ?thesis
    using extractURLsFromFile_candidates [OF f s] f s
    unfolding c by (simp add: r List.map_filter_simps)
qed


subsection \<open>The loop of cleanURLs\<close>

lemma domainLoop_set: "domainLoop hostName domains = (hostName \<in> set domains)"
  by (induction domains) auto

lemma cleanLoop_step:
  assumes "isUrlValid s" and "Parse s = Inr u"
  shows "cleanLoop strip (s # urls) (lg, acc) =
           (if Hostname u \<in> set validDomains
            then cleanLoop strip urls (lg, acc @ [if strip then TrimSuffix s unwantedSuffix else s])
            else cleanLoop strip urls (lg @ [InvalidDomainSkipped (Hostname u)], acc))"
  using assms by (simp add: getHostNameFromURL_def domainLoop_set)

lemma cleanLoop_invalid:
  "\<not> isUrlValid s \<Longrightarrow> cleanLoop strip (s # urls) (lg, acc) = cleanLoop strip urls (lg, acc)"
  by simp

lemma cleanLoop_fatal:
  "isUrlValid s \<Longrightarrow> Parse s = Inl e \<Longrightarrow>
     cleanLoop strip (s # urls) (lg, acc) = (lg @ [FatalParse e], Exit 1)"
  by (simp add: getHostNameFromURL_def)

lemma cleanLoop_Return:
  "cleanLoop strip urls (lg, acc) = (lg', Return out) \<Longrightarrow>
     out = acc @ map (\<lambda>s. if strip then TrimSuffix s unwantedSuffix else s)
                   (filter (\<lambda>s. isUrlValid s \<and> hostNameAllowed s) urls)"
proof (induction urls arbitrary: lg acc)
  case Nil
  then show ?case by simp
next
  case (Cons s urls)
  show ?case
  proof (cases "isUrlValid s")
    case False
    then show ?thesis using Cons by simp
  next
    case True
    show ?thesis
    proof (cases "Parse s")
      case (Inl e)
      show ?thesis using Cons.prems unfolding cleanLoop_fatal [OF True Inl] by simp
    next
      case (Inr u)
      show ?thesis
      proof (cases "Hostname u \<in> set validDomains")
        case h: True
        have "cleanLoop strip urls (lg, acc @ [if strip then TrimSuffix s unwantedSuffix else s])
              = (lg', Return out)"
          using Cons.prems cleanLoop_step [OF True Inr] h by simp
        from Cons.IH [OF this] show ?thesis
          using True Inr h by (simp add: hostNameAllowed_def)
      next
        case h: False
        have "cleanLoop strip urls (lg @ [InvalidDomainSkipped (Hostname u)], acc)
              = (lg', Return out)"
          using Cons.prems cleanLoop_step [OF True Inr] h by simp
        from Cons.IH [OF this] show ?thesis
          using True Inr h by (simp add: hostNameAllowed_def)
      qed
    qed
  qed
qed

lemma cleanLoop_returns:
  "\<forall>s \<in> set urls. isUrlValid s \<longrightarrow> (\<exists>u. Parse s = Inr u) \<Longrightarrow>
     \<exists>lg' out. cleanLoop strip urls (lg, acc) = (lg', Return out)"
proof (induction urls arbitrary: lg acc)
  case Nil
  then show ?case by simp
next
  case (Cons s urls)
  show ?case
  proof (cases "isUrlValid s")
    case False
    then show ?thesis using Cons by simp
  next
    case True
    then obtain u where u: "Parse s = Inr u" using Cons.prems by auto
    show ?thesis
      unfolding cleanLoop_step [OF True u] using Cons by simp
  qed
qed

text \<open>
  C2. In cleanURLs of \<^verbatim>\<open>main.go\<close>, for every string that passes isUrlValid and that
  \<^verbatim>\<open>url.Parse\<close> accepts, the host name compared with the allowed domains is the one of
  the string as it came in, and what is appended when the comparison succeeds is the string
  without the trailing \<^verbatim>\<open>target=&quot;_blank&quot;\<close>. So the output is the trimmed form of
  exactly those inputs whose untrimmed host name is allowed.
\<close>

theorem cleanURLs_checks_unstripped_keeps_stripped:
  assumes "isUrlValid s" and "Parse s = Inr u"
  shows "cleanLoop True (s # urls) (lg, acc) =
           (if Hostname u \<in> set validDomains
            then cleanLoop True urls (lg, acc @ [TrimSuffix s unwantedSuffix])
            else cleanLoop True urls (lg @ [InvalidDomainSkipped (Hostname u)], acc))
         \<and> (\<forall>lg' out. cleanURLs (s # urls) = (lg', Return out) \<longrightarrow>
              out = map (\<lambda>s. TrimSuffix s unwantedSuffix)
                      (filter (\<lambda>s. isUrlValid s \<and> hostNameAllowed s) (s # urls)))"
proof -
  have a: "cleanLoop True (s # urls) (lg, acc) =
           (if Hostname u \<in> set validDomains
            then cleanLoop True urls (lg, acc @ [TrimSuffix s unwantedSuffix])
            else cleanLoop True urls (lg @ [InvalidDomainSkipped (Hostname u)], acc))"
    using cleanLoop_step [OF assms, of True] by simp
  have b: "\<forall>lg' out. cleanURLs (s # urls) = (lg', Return out) \<longrightarrow>
              out = map (\<lambda>s. TrimSuffix s unwantedSuffix)
                      (filter (\<lambda>s. isUrlValid s \<and> hostNameAllowed s) (s # urls))"
    using cleanLoop_Return [of True "s # urls" "[]" "[]"]
    unfolding cleanURLs_def by auto
  show ?thesis using a b by blast
qed


theorem cleanURLs_checks_unstripped_keeps_stripped_witness:
  "isUrlValid ''http://documentcloud.org/target=&quot;_blank&quot;''
   \<and> Parse ''http://documentcloud.org/target=&quot;_blank&quot;''
       = Inr \<lparr>Scheme = ''http'', Opaque = [], User = None, Host = ''documentcloud.org'',
               Path = ''/target=&quot;_blank&quot;'', RawPath = [], OmitHost = False,
               ForceQuery = False, RawQuery = [], Fragment = [], RawFragment = []\<rparr>
   \<and> cleanLoop True [''http://documentcloud.org/target=&quot;_blank&quot;'',
                       ''http://documentcloud.orgtarget=&quot;_blank&quot;''] ([], [])
       = cleanLoop True [''http://documentcloud.orgtarget=&quot;_blank&quot;'']
           ([], [''http://documentcloud.org/''])
   \<and> cleanURLs [''http://documentcloud.org/target=&quot;_blank&quot;'',
                   ''http://documentcloud.orgtarget=&quot;_blank&quot;'']
       = ([InvalidDomainSkipped ''documentcloud.orgtarget=&quot;_blank&quot;''],
          Return [''http://documentcloud.org/''])"
proof -
  have v: "isUrlValid ''http://documentcloud.org/target=&quot;_blank&quot;''"
    by code_simp
  have p: "Parse ''http://documentcloud.org/target=&quot;_blank&quot;''
       = Inr \<lparr>Scheme = ''http'', Opaque = [], User = None, Host = ''documentcloud.org'',
               Path = ''/target=&quot;_blank&quot;'', RawPath = [], OmitHost = False,
               ForceQuery = False, RawQuery = [], Fragment = [], RawFragment = []\<rparr>"
    by code_simp
  have h: "Hostname \<lparr>Scheme = ''http'', Opaque = [], User = None, Host = ''documentcloud.org'',
               Path = ''/target=&quot;_blank&quot;'', RawPath = [], OmitHost = False,
               ForceQuery = False, RawQuery = [], Fragment = [], RawFragment = []\<rparr>
           \<in> set validDomains"
    by code_simp
  have t: "TrimSuffix ''http://documentcloud.org/target=&quot;_blank&quot;'' unwantedSuffix
           = ''http://documentcloud.org/''"
    by code_simp
  have c: "cleanURLs [''http://documentcloud.org/target=&quot;_blank&quot;'',
                   ''http://documentcloud.orgtarget=&quot;_blank&quot;'']
       = ([InvalidDomainSkipped ''documentcloud.orgtarget=&quot;_blank&quot;''],
          Return [''http://documentcloud.org/''])"
    by code_simp
  from cleanURLs_checks_unstripped_keeps_stripped [OF v p,
      of "[''http://documentcloud.orgtarget=&quot;_blank&quot;'']" "[]" "[]"]
  have "cleanLoop True [''http://documentcloud.org/target=&quot;_blank&quot;'',
                       ''http://documentcloud.orgtarget=&quot;_blank&quot;''] ([], [])
       = cleanLoop True [''http://documentcloud.orgtarget=&quot;_blank&quot;'']
           ([], [''http://documentcloud.org/''])"
    using h t by simp
  then show ?thesis using v p c by simp
qed

subsection \<open>The fatal branch of getHostNameFromURL\<close>

lemma getSchemeLoop_no_scheme:
  "getSchemeLoop raw pre r = Inr ([], rest) \<Longrightarrow> rest = raw"
  by (induction r arbitrary: pre) (auto split: if_splits)

lemma getScheme_no_scheme: "getScheme raw = Inr ([], rest) \<Longrightarrow> rest = raw"
  unfolding getScheme_def by (rule getSchemeLoop_no_scheme)

lemma ToLower_Nil_iff: "ToLower s = [] \<longleftrightarrow> s = []"
  by (simp add: ToLower_def)

lemma butlast_single_question:
  assumes "suffix ''?'' x" and "Count x CHR ''?'' = 1"
  shows "butlast x = takeWhile (\<lambda>c. c \<noteq> CHR ''?'') x"
proof -
  from assms(1) obtain y where x: "x = y @ ''?''" by (auto simp: suffix_def)
  with assms(2) have "filter (\<lambda>c. c = CHR ''?'') y = []" by (simp add: Count_def)
  then have "\<forall>c \<in> set y. c \<noteq> CHR ''?''" by (simp add: filter_empty_conv)
  then show ?thesis using x by (simp add: takeWhile_append2)
qed

lemma takeWhile_absent: "c \<notin> set x \<Longrightarrow> takeWhile (\<lambda>y. y \<noteq> c) x = x"
  by (auto simp: takeWhile_eq_all_conv)

lemma splitQuery_fst: "fst (splitQuery x) = takeWhile (\<lambda>c. c \<noteq> CHR ''?'') x"
proof (cases "HasSuffix x ''?'' \<and> Count x CHR ''?'' = 1")
  case True
  then show ?thesis
    by (simp add: splitQuery_def HasSuffix_def butlast_single_question)
next
  case False
  then show ?thesis
    by (auto simp: splitQuery_def Cut_def IndexByte_def takeWhile_eq_take [symmetric]
        takeWhile_absent)
qed

lemma prefix_takeWhile_slashes:
  "prefix ''//'' (takeWhile (\<lambda>c. c \<noteq> CHR ''?'') s) \<Longrightarrow> prefix ''//'' s"
  by (cases s; cases "tl s") (auto split: if_splits)

lemma parseFrom_viaRequest:
  assumes "parseFrom url rest True = Inr u"
    and "Scheme url = [] \<longrightarrow> \<not> HasPrefix rest ''//''"
  shows "parseFrom url rest False = Inr u"
  using assms unfolding parseFrom_def
  by (auto simp: HasPrefix_def split: if_splits)

lemma parse_viaRequest:
  assumes "parse s True = Inr u" and "\<not> HasPrefix s ''//''"
  shows "parse s False = Inr u"
proof -
  from assms(1) have ctl: "\<not> stringContainsCTLByte s" and ne: "s \<noteq> []"
    by (auto simp: parse_def split: if_splits)
  show ?thesis
  proof (cases "s = ''*''")
    case True
    then show ?thesis using assms(1) ctl by (simp add: parse_def)
  next
    case False
    from assms(1) ctl ne False obtain scheme rest0 where gs: "getScheme s = Inr (scheme, rest0)"
      by (auto simp: parse_def split: sum.splits)
    obtain rest rawQuery forceQuery where sq: "splitQuery rest0 = (rest, rawQuery, forceQuery)"
      by (cases "splitQuery rest0") auto
    let ?url = "newURL\<lparr>Scheme := ToLower scheme, ForceQuery := forceQuery, RawQuery := rawQuery\<rparr>"
    have p: "parseFrom ?url rest True = Inr u"
      using assms(1) ctl ne False gs sq by (simp add: parse_def)
    have "Scheme ?url = [] \<longrightarrow> \<not> HasPrefix rest ''//''"
    proof
      assume "Scheme ?url = []"
      then have "scheme = []" by (simp add: ToLower_Nil_iff)
      with gs have "rest0 = s" by (auto dest: getScheme_no_scheme)
      moreover have "rest = takeWhile (\<lambda>c. c \<noteq> CHR ''?'') rest0"
        using splitQuery_fst [of rest0] sq by simp
      ultimately show "\<not> HasPrefix rest ''//''"
        using assms(2) prefix_takeWhile_slashes [of s] by (auto simp: HasPrefix_def)
    qed
    from parseFrom_viaRequest [OF p this] show ?thesis
      using ctl ne False gs sq by (simp add: parse_def)
  qed
qed

lemma Parse_without_fragment: "CHR ''#'' \<notin> set s \<Longrightarrow> Parse s = parse s False"
  by (simp add: Parse_def Cut_def IndexByte_def split: sum.splits)

lemma valid_Parse:
  assumes "isUrlValid s" and "CHR ''#'' \<notin> set s" and "\<not> HasPrefix s ''//''"
  shows "Parse s = ParseRequestURI s" and "\<exists>u. Parse s = Inr u"
proof -
  from assms(1) obtain u where u: "parse s True = Inr u"
    by (auto simp: isUrlValid_def ParseRequestURI_def split: sum.splits)
  from parse_viaRequest [OF u assms(3)] show "Parse s = ParseRequestURI s"
    using u by (simp add: Parse_without_fragment [OF assms(2)] ParseRequestURI_def)
  then show "\<exists>u. Parse s = Inr u"
    using u by (simp add: ParseRequestURI_def)
qed


text \<open>
  C7 fails as stated. \<^verbatim>\<open>url.ParseRequestURI\<close> does not split off a fragment and does not
  check the query, \<^verbatim>\<open>url.Parse\<close> cuts the string at the first \<^verbatim>\<open>#\<close> and rejects a
  fragment with a malformed percent escape. The string \<^verbatim>\<open>http://a/b?x#%zz\<close> is a candidate
  of the pattern, passes isUrlValid and is its own re-serialization, and on it
  getHostNameFromURL takes the fatal branch: cleanURLs ends the process with status 1.
\<close>

theorem getHostNameFromURL_fatal_counterexample:
  "FindAllString ''http://a/b?x#%zz'' = [''http://a/b?x#%zz'']
   \<and> reserialized ''http://a/b?x#%zz'' = Some ''http://a/b?x#%zz''
   \<and> isUrlValid ''http://a/b?x#%zz''
   \<and> Parse ''http://a/b?x#%zz'' = Inl (EscapeError ''%zz'')
   \<and> getHostNameFromURL ''http://a/b?x#%zz'' = ([FatalParse (EscapeError ''%zz'')], Exit 1)
   \<and> cleanURLs [''http://a/b?x#%zz''] = ([FatalParse (EscapeError ''%zz'')], Exit 1)
   \<and> cleanURLs_unstripped [''http://a/b?x#%zz''] = ([FatalParse (EscapeError ''%zz'')], Exit 1)"
  by code_simp

text \<open>
  C7, amended. For every string that passes isUrlValid, contains no \<^verbatim>\<open>#\<close> and does not
  begin with \<^verbatim>\<open>//\<close>, \<^verbatim>\<open>url.Parse\<close> succeeds (with the result of
  \<^verbatim>\<open>url.ParseRequestURI\<close>), so getHostNameFromURL returns a host name; on a list of such
  strings cleanURLs returns and does not end the process.
\<close>

theorem cleanURLs_returns_without_fragment:
  assumes "\<forall>s \<in> set urls. CHR ''#'' \<notin> set s \<and> \<not> HasPrefix s ''//''"
  shows "(\<forall>s \<in> set urls. isUrlValid s \<longrightarrow>
            Parse s = ParseRequestURI s
            \<and> (\<exists>hostName. getHostNameFromURL s = ([], Return hostName)))
         \<and> (\<exists>lg out. cleanURLs urls = (lg, Return out))
         \<and> (\<exists>lg out. cleanURLs_unstripped urls = (lg, Return out))"
proof -
  have a: "\<forall>s \<in> set urls. isUrlValid s \<longrightarrow> (\<exists>u. Parse s = Inr u)"
    using assms valid_Parse(2) by blast
  have b: "\<forall>s \<in> set urls. isUrlValid s \<longrightarrow>
            Parse s = ParseRequestURI s
            \<and> (\<exists>hostName. getHostNameFromURL s = ([], Return hostName))"
  proof (intro ballI impI)
    fix s assume s: "s \<in> set urls" "isUrlValid s"
    with assms have h: "CHR ''#'' \<notin> set s" "\<not> HasPrefix s ''//''" by auto
    from valid_Parse [OF s(2) h] show "Parse s = ParseRequestURI s
            \<and> (\<exists>hostName. getHostNameFromURL s = ([], Return hostName))"
      by (auto simp: getHostNameFromURL_def)
  qed
  show ?thesis
    using b cleanLoop_returns [OF a, of True "[]" "[]"] cleanLoop_returns [OF a, of False "[]" "[]"]
    by (simp add: cleanURLs_def cleanURLs_unstripped_def)
qed

theorem cleanURLs_returns_without_fragment_witness:
  "(CHR ''#'' \<notin> set ''https://www.documentcloud.org/docs/123.pdf''
      \<and> \<not> HasPrefix ''https://www.documentcloud.org/docs/123.pdf'' ''//'')
   \<and> (CHR ''#'' \<notin> set ''https://evil.example.com/x''
      \<and> \<not> HasPrefix ''https://evil.example.com/x'' ''//'')
   \<and> isUrlValid ''https://www.documentcloud.org/docs/123.pdf''
   \<and> Parse ''https://www.documentcloud.org/docs/123.pdf''
       = ParseRequestURI ''https://www.documentcloud.org/docs/123.pdf''
   \<and> (\<exists>lg out. cleanURLs [''https://www.documentcloud.org/docs/123.pdf'',
                               ''https://evil.example.com/x''] = (lg, Return out))"
proof -
  have h: "\<forall>s \<in> set [''https://www.documentcloud.org/docs/123.pdf'',
                        ''https://evil.example.com/x''].
             CHR ''#'' \<notin> set s \<and> \<not> HasPrefix s ''//''"
    by (simp add: HasPrefix_def)
  have v: "isUrlValid ''https://www.documentcloud.org/docs/123.pdf''"
    by code_simp
  show ?thesis
    using cleanURLs_returns_without_fragment [OF h] h v by simp
qed

subsection \<open>A host with a port\<close>







subsection \<open>Properties of the deduplication loop\<close>

lemma firstOccurrences_Nil: "firstOccurrences [] = []"
  by (simp add: firstOccurrences_def)

lemma firstOccurrences_snoc:
  "firstOccurrences (xs @ [x]) =
     firstOccurrences xs @ (if x \<in> set xs then [] else [x])"
proof -
  have f: "filter (\<lambda>i. (xs @ [x]) ! i \<notin> set (take i (xs @ [x]))) [0..<length xs]
         = filter (\<lambda>i. xs ! i \<notin> set (take i xs)) [0..<length xs]"
    by (rule filter_cong) (auto simp: nth_append)
  have m: "map (\<lambda>i. (xs @ [x]) ! i) (filter (\<lambda>i. xs ! i \<notin> set (take i xs)) [0..<length xs])
         = map (\<lambda>i. xs ! i) (filter (\<lambda>i. xs ! i \<notin> set (take i xs)) [0..<length xs])"
    by (rule map_cong) (auto simp: nth_append)
  have u: "[0..<length (xs @ [x])] = [0..<length xs] @ [length xs]"
    by simp
  show ?thesis
    unfolding firstOccurrences_def u filter_append map_append f m
    by simp
qed

lemma removeDuplicatesLoop_invariant:
  "(\<And>c. checkLookup check c = (c \<in> set seen)) \<Longrightarrow>
   removeDuplicatesLoop check (firstOccurrences seen) slice = firstOccurrences (seen @ slice)"
proof (induction slice arbitrary: check seen)
  case Nil
  then show ?case by simp
next
  case (Cons content slice)
  show ?case
  proof (cases "content \<in> set seen")
    case True
    have step: "removeDuplicatesLoop check (firstOccurrences (seen @ [content])) slice
                = firstOccurrences ((seen @ [content]) @ slice)"
      by (rule Cons.IH) (use Cons.prems True in auto)
    then show ?thesis
      using True Cons.prems by (simp add: firstOccurrences_snoc)
  next
    case False
    have inv: "\<And>c. checkLookup (check(content \<mapsto> True)) c = (c \<in> set (seen @ [content]))"
      using Cons.prems by (auto simp: checkLookup_def)
    have step: "removeDuplicatesLoop (check(content \<mapsto> True))
                  (firstOccurrences (seen @ [content])) slice
                = firstOccurrences ((seen @ [content]) @ slice)"
      by (rule Cons.IH) (rule inv)
    then show ?thesis
      using False Cons.prems by (simp add: firstOccurrences_snoc)
  qed
qed

lemma removeDuplicatesFromSlice_firstOccurrences:
  "removeDuplicatesFromSlice xs = firstOccurrences xs"
  using removeDuplicatesLoop_invariant [of Map.empty "[]" xs]
  by (simp add: removeDuplicatesFromSlice_def firstOccurrences_Nil checkLookup_def)

lemma set_firstOccurrences: "set (firstOccurrences xs) = set xs"
  by (induction xs rule: rev_induct) (auto simp: firstOccurrences_Nil firstOccurrences_snoc)

lemma distinct_firstOccurrences: "distinct (firstOccurrences xs)"
  by (induction xs rule: rev_induct)
     (auto simp: firstOccurrences_Nil firstOccurrences_snoc set_firstOccurrences)

lemma subseq_firstOccurrences: "subseq (firstOccurrences xs) xs"
proof (induction xs rule: rev_induct)
  case Nil
  then show ?case by (simp add: firstOccurrences_Nil)
next
  case (snoc x xs)
  show ?case
  proof (cases "x \<in> set xs")
    case True
    then show ?thesis
      using snoc by (simp add: firstOccurrences_snoc subseq_rev_drop_many [of _ _ "[x]"] list_emb_append2)
  next
    case False
    then show ?thesis
      using snoc by (simp add: firstOccurrences_snoc)
  qed
qed

lemma firstOccurrences_distinct_id: "distinct xs \<Longrightarrow> firstOccurrences xs = xs"
  by (induction xs rule: rev_induct) (auto simp: firstOccurrences_Nil firstOccurrences_snoc)

text \<open>
  C3. For every input sequence, removeDuplicatesFromSlice returns the elements at the
  positions of first occurrence, in input order: the result is a subsequence of the input,
  has no repeated string and contains every string of the input. The function is total:
  it returns a list for every input and has no error result.
\<close>

theorem removeDuplicatesFromSlice_first_occurrence:
  "removeDuplicatesFromSlice xs = firstOccurrences xs
   \<and> subseq (removeDuplicatesFromSlice xs) xs
   \<and> distinct (removeDuplicatesFromSlice xs)
   \<and> set (removeDuplicatesFromSlice xs) = set xs"
  by (simp add: removeDuplicatesFromSlice_firstOccurrences subseq_firstOccurrences
      distinct_firstOccurrences set_firstOccurrences)

text \<open>
  C4. Deduplication is idempotent: applying removeDuplicatesFromSlice to its own output
  changes nothing.
\<close>

theorem removeDuplicatesFromSlice_idempotent:
  "removeDuplicatesFromSlice (removeDuplicatesFromSlice xs) = removeDuplicatesFromSlice xs"
  by (simp add: removeDuplicatesFromSlice_firstOccurrences firstOccurrences_distinct_id
      distinct_firstOccurrences)

end
